theory Spec2Isabelle
  imports Complex_Main "HOL-Library.Sublist"
begin

section \<open>Chat Group Summarizer: the fetch pipeline, the retry loop and the metrics\<close>

text \<open>
  A shallow embedding of three parts of the repository:
  \<^item> \<^verbatim>\<open>enhanced-fetch-messages.js\<close>: \<^verbatim>\<open>fetchChatMessagesEnhanced\<close>,
    \<^verbatim>\<open>fetchChatMessagesSimple\<close> and \<^verbatim>\<open>fetchChatMessagesSmart\<close>;
  \<^item> \<^verbatim>\<open>index.js\<close>: the retry loop of \<^verbatim>\<open>summarizeConversations\<close>;
  \<^item> \<^verbatim>\<open>diagnostics.js\<close>: \<^verbatim>\<open>startTimer\<close>, \<^verbatim>\<open>recordApiCall\<close> and
    \<^verbatim>\<open>recordRequest\<close> of the \<^verbatim>\<open>DiagnosticsManager\<close>.

  The RingCentral platform and the Gemini model are collaborators outside the repository.
  The platform is a transition function on a state of its own, so that a response may
  depend on everything requested before; the Gemini model is the sequence of outcomes of
  its successive exchanges. Instants are milliseconds since the epoch, as the time value of a
  JavaScript \<^verbatim>\<open>Date\<close>. Debug logging and the exchanges to the timers inside the fetchers
  have no effect on what the fetchers return or request and are left out.
\<close>

subsection \<open>Data of the upstream message API\<close>

text \<open>
  A post as the API returns it. \<open>creationTime\<close> is the time value of
  \<^verbatim>\<open>new Date(record.creationTime)\<close>.
\<close>

record message =
  post_id :: string
  creatorId :: string
  creationTime :: int
  msg_text :: "string option"

text \<open>The body of a page: \<^verbatim>\<open>json.records || []\<close> and \<^verbatim>\<open>json.navigation?.nextPageToken\<close>.\<close>

record page =
  records :: "message list"
  nextPageToken :: "string option"

text \<open>The query of one \<^verbatim>\<open>platform.get(endpoint, { qs: params })\<close>.\<close>

record request =
  url :: string
  recordCount :: nat
  req_pageToken :: "string option"

text \<open>
  What a rejected \<^verbatim>\<open>platform.get\<close> (or \<^verbatim>\<open>resp.json()\<close>) throws:
  \<^verbatim>\<open>error.response.status\<close> (absent when there is no response), \<^verbatim>\<open>error.status\<close> and
  \<^verbatim>\<open>error.message\<close>.
\<close>

record http_error =
  response_status :: "nat option"
  err_status :: "nat option"
  err_message :: string

type_synonym response = "http_error + page"

type_synonym 's platform = "'s \<Rightarrow> request \<Rightarrow> response \<times> 's"

text \<open>
  \<^verbatim>\<open>new APIError(message, status, service)\<close>. The class is declared in
  \<^verbatim>\<open>error-handler.js\<close>, which is not among the sources; only the three constructor
  arguments the callers pass are recorded.
\<close>

datatype api_error = APIError string "nat option" string

text \<open>
  One invocation of a fetcher: the state of the upstream service, every request issued so
  far with its response (oldest first), and the messages given to \<^verbatim>\<open>logger.warn\<close>.
\<close>

record 's run =
  upstream :: 's
  exchanges :: "(request \<times> response) list"
  warnings :: "string list"

definition start_run :: "'s \<Rightarrow> 's run" where
  "start_run s = \<lparr>upstream = s, exchanges = [], warnings = []\<rparr>"

definition platform_get :: "'s platform \<Rightarrow> request \<Rightarrow> 's run \<Rightarrow> response \<times> 's run" where
  "platform_get pf req r =
     (case pf (upstream r) req of
        (resp, s') \<Rightarrow> (resp, r\<lparr>upstream := s', exchanges := exchanges r @ [(req, resp)]\<rparr>))"

subsection \<open>Rendering a page number\<close>

text \<open>The decimal digits a template literal prints for a non-negative integer.\<close>

definition digit_char :: "nat \<Rightarrow> char" where
  "digit_char d = ''0123456789'' ! d"

function show_nat :: "nat \<Rightarrow> string" where
  "show_nat n = (if n < 10 then [digit_char n] else show_nat (n div 10) @ [digit_char (n mod 10)])"
  by pat_completeness auto
termination
  by (relation "measure (\<lambda>n. n)") auto

declare show_nat.simps [simp del]

subsection \<open>Endpoint discovery\<close>

definition teams_endpoint :: "string \<Rightarrow> string" where
  "teams_endpoint chatId = ''/restapi/v1.0/glip/teams/'' @ chatId @ ''/posts''"

definition chats_endpoint :: "string \<Rightarrow> string" where
  "chats_endpoint chatId = ''/restapi/v1.0/glip/chats/'' @ chatId @ ''/posts''"

text \<open>
  The \<^verbatim>\<open>try { ... } catch (error) { ... }\<close> block with which both
  \<^verbatim>\<open>fetchChatMessagesEnhanced\<close> and \<^verbatim>\<open>fetchChatMessagesSimple\<close> start: one request to the
  teams endpoint with \<^verbatim>\<open>recordCount: 1\<close>; on a 404 the chats endpoint is taken, any other
  failure is rethrown as an \<^verbatim>\<open>APIError\<close>.
\<close>

definition endpoint_discovery :: "'s platform \<Rightarrow> string \<Rightarrow> 's run \<Rightarrow> (api_error + string) \<times> 's run" where
  "endpoint_discovery pf chatId r =
     (case platform_get pf \<lparr>url = teams_endpoint chatId, recordCount = 1, req_pageToken = None\<rparr> r of
        (Inr _, r') \<Rightarrow> (Inr (teams_endpoint chatId), r')
      | (Inl e, r') \<Rightarrow>
          if response_status e = Some 404 then (Inr (chats_endpoint chatId), r')
          else (Inl (APIError (''Failed to determine endpoint for chat '' @ chatId)
                       (err_status e) ''RingCentral''), r'))"

subsection \<open>The paginated date-range fetcher\<close>

definition maxPages :: nat where
  "maxPages = 20"

definition recordsPerPage :: nat where
  "recordsPerPage = 250"

text \<open>\<^verbatim>\<open>x || null\<close> and \<^verbatim>\<open>if (x)\<close> on a token: the empty string is falsy.\<close>

definition truthy_token :: "string option \<Rightarrow> string option" where
  "truthy_token t = (case t of None \<Rightarrow> None | Some s \<Rightarrow> if s = [] then None else Some s)"

definition in_range :: "int \<Rightarrow> int \<Rightarrow> message \<Rightarrow> bool" where
  "in_range dateFrom dateTo m \<longleftrightarrow> creationTime m \<ge> dateFrom \<and> creationTime m \<le> dateTo"

text \<open>
  The \<^verbatim>\<open>for (const record of pageRecords)\<close> loop, on the pair
  \<open>(allMessages, foundOlderThanRange)\<close>.
\<close>

fun classify :: "int \<Rightarrow> int \<Rightarrow> message list \<Rightarrow> message list \<times> bool \<Rightarrow> message list \<times> bool" where
  "classify dateFrom dateTo [] acc = acc"
| "classify dateFrom dateTo (record # rest) (allMessages, foundOlder) =
     (if creationTime record \<ge> dateFrom \<and> creationTime record \<le> dateTo
      then classify dateFrom dateTo rest (allMessages @ [record], foundOlder)
      else if creationTime record < dateFrom
      then classify dateFrom dateTo rest (allMessages, True)
      else classify dateFrom dateTo rest (allMessages, foundOlder))"

record fetch_state =
  pageToken :: "string option"
  pagesProcessed :: nat
  allMessages :: "message list"
  foundOlderThanRange :: bool

definition initial_fetch_state :: fetch_state where
  "initial_fetch_state =
     \<lparr>pageToken = None, pagesProcessed = 0, allMessages = [], foundOlderThanRange = False\<rparr>"

definition page_failure :: "nat \<Rightarrow> string \<Rightarrow> http_error \<Rightarrow> api_error" where
  "page_failure processed endpoint e =
     APIError (''Failed to fetch page '' @ show_nat (processed + 1) @ '' from '' @ endpoint)
       (err_status e) ''RingCentral''"

text \<open>
  The \<^verbatim>\<open>while (pagesProcessed < maxPages && !foundOlderThanRange)\<close> loop. Each
  \<^verbatim>\<open>break\<close> returns the state reached; the \<^verbatim>\<open>catch\<close> returns the \<^verbatim>\<open>APIError\<close>.
\<close>

function pagination_loop ::
  "'s platform \<Rightarrow> string \<Rightarrow> int \<Rightarrow> int \<Rightarrow> fetch_state \<Rightarrow> 's run \<Rightarrow> (api_error + fetch_state) \<times> 's run" where
  "pagination_loop pf endpoint dateFrom dateTo st r =
     (if pagesProcessed st < maxPages \<and> \<not> foundOlderThanRange st then
        (case platform_get pf
                \<lparr>url = endpoint, recordCount = recordsPerPage,
                 req_pageToken = truthy_token (pageToken st)\<rparr> r of
           (Inl e, r') \<Rightarrow> (Inl (page_failure (pagesProcessed st) endpoint e), r')
         | (Inr json, r') \<Rightarrow>
             if records json = [] then (Inr st, r')
             else
               (case classify dateFrom dateTo (records json)
                       (allMessages st, foundOlderThanRange st) of
                  (msgs, found) \<Rightarrow>
                    let st' = \<lparr>pageToken = truthy_token (nextPageToken json),
                               pagesProcessed = pagesProcessed st + 1,
                               allMessages = msgs, foundOlderThanRange = found\<rparr>
                    in if foundOlderThanRange st' then (Inr st', r')
                       else if pageToken st' = None then (Inr st', r')
                       else pagination_loop pf endpoint dateFrom dateTo st' r'))
      else (Inr st, r))"
  by pat_completeness auto
termination
  by (relation "measure (\<lambda>(pf, endpoint, dateFrom, dateTo, st, r). maxPages - pagesProcessed st)")
     auto

declare pagination_loop.simps [simp del]

text \<open>
  After the loop: the warning when \<^verbatim>\<open>pagesProcessed >= maxPages\<close>, then
  \<^verbatim>\<open>allMessages.sort((a, b) => new Date(a.creationTime) - new Date(b.creationTime))\<close>.
  \<^verbatim>\<open>Array.prototype.sort\<close> is stable, and so is \<open>sort_key\<close>: messages of equal time keep
  their order of arrival. A failed discovery or a failed page ends the call with the
  \<^verbatim>\<open>APIError\<close> thrown.
\<close>

definition page_limit_warning :: string where
  "page_limit_warning = ''Reached maximum page limit during message fetch''"

definition fetchChatMessagesEnhanced ::
  "'s platform \<Rightarrow> 's \<Rightarrow> string \<Rightarrow> int \<Rightarrow> int \<Rightarrow> (api_error + message list) \<times> 's run" where
  "fetchChatMessagesEnhanced pf s chatId dateFrom dateTo =
     (case endpoint_discovery pf chatId (start_run s) of
        (Inl err, r1) \<Rightarrow> (Inl err, r1)
      | (Inr endpoint, r1) \<Rightarrow>
          (case pagination_loop pf endpoint dateFrom dateTo initial_fetch_state r1 of
             (Inl err, r2) \<Rightarrow> (Inl err, r2)
           | (Inr st, r2) \<Rightarrow>
               (Inr (sort_key creationTime (allMessages st)),
                if pagesProcessed st \<ge> maxPages
                then r2\<lparr>warnings := warnings r2 @ [page_limit_warning]\<rparr>
                else r2)))"

subsection \<open>The single-page fetcher and the strategy selector\<close>

definition fetchChatMessagesSimple ::
  "'s platform \<Rightarrow> 's \<Rightarrow> string \<Rightarrow> int \<Rightarrow> int \<Rightarrow> (api_error + message list) \<times> 's run" where
  "fetchChatMessagesSimple pf s chatId dateFrom dateTo =
     (case endpoint_discovery pf chatId (start_run s) of
        (Inl err, r1) \<Rightarrow> (Inl err, r1)
      | (Inr endpoint, r1) \<Rightarrow>
          (case platform_get pf \<lparr>url = endpoint, recordCount = 250, req_pageToken = None\<rparr> r1 of
             (Inl e, r2) \<Rightarrow>
               (Inl (APIError (''Failed to fetch messages from '' @ endpoint)
                       (err_status e) ''RingCentral''), r2)
           | (Inr json, r2) \<Rightarrow>
               (Inr (rev (filter (in_range dateFrom dateTo) (records json))), r2)))"

text \<open>
  \<^verbatim>\<open>Math.ceil((now - dateFrom) / (1000 * 60 * 60 * 24))\<close>, with \<open>now\<close> the time value of
  \<^verbatim>\<open>new Date()\<close>. Both instants are whole milliseconds, and the quotient is compared with 3
  only, where the rounding of the division cannot change the outcome.
\<close>

definition daysDifference :: "int \<Rightarrow> int \<Rightarrow> int" where
  "daysDifference now dateFrom = \<lceil>real_of_int (now - dateFrom) / (1000 * 60 * 60 * 24)\<rceil>"

definition fetchChatMessagesSmart ::
  "'s platform \<Rightarrow> 's \<Rightarrow> string \<Rightarrow> int \<Rightarrow> int \<Rightarrow> int \<Rightarrow> (api_error + message list) \<times> 's run" where
  "fetchChatMessagesSmart pf s chatId dateFrom dateTo now =
     (if daysDifference now dateFrom \<le> 3
      then fetchChatMessagesSimple pf s chatId dateFrom dateTo
      else fetchChatMessagesEnhanced pf s chatId dateFrom dateTo)"

subsection \<open>The retry loop of the summarization call\<close>

text \<open>
  What a rejected \<^verbatim>\<open>model.generateContent(prompt)\<close> throws: \<^verbatim>\<open>error.message\<close> and
  \<^verbatim>\<open>error.status\<close>.
\<close>

record gen_error =
  gen_message :: string
  gen_status :: "nat option"

text \<open>
  The prompt is built once, before the loop, and is the same on every attempt, so the model
  is given by the outcome of its \<open>k\<close>-th call (counted from 0): a rejection or the text of
  the result.
\<close>

type_synonym gemini = "nat \<Rightarrow> gen_error + string"

text \<open>\<^verbatim>\<open>s.includes(sub)\<close>: \<open>sub\<close> occurs in \<open>s\<close> as a contiguous substring.\<close>

fun str_includes :: "string \<Rightarrow> string \<Rightarrow> bool" where
  "str_includes [] sub = (sub = [])"
| "str_includes (c # cs) sub = (prefix sub (c # cs) \<or> str_includes cs sub)"

text \<open>
  The calls of \<^verbatim>\<open>generateContent\<close> made so far and the delays, in milliseconds, handed to
  \<^verbatim>\<open>setTimeout\<close>, oldest first.
\<close>

record retry_run =
  attempts :: nat
  waits :: "nat list"

text \<open>
  The \<^verbatim>\<open>while (retries > 0)\<close> loop of \<^verbatim>\<open>summarizeConversations\<close>. Falling out of the
  loop returns \<^verbatim>\<open>undefined\<close>, which is \<open>Inr None\<close>.
\<close>

function retry_loop ::
  "gemini \<Rightarrow> nat \<Rightarrow> nat \<Rightarrow> retry_run \<Rightarrow> (api_error + string option) \<times> retry_run" where
  "retry_loop gen retries delay rr =
     (if retries > 0 then
        (case gen (attempts rr) of
           Inr result \<Rightarrow> (Inr (Some result), rr\<lparr>attempts := attempts rr + 1\<rparr>)
         | Inl error \<Rightarrow>
             if str_includes (gen_message error) ''503'' then
               (if retries - 1 > 0
                then retry_loop gen (retries - 1) (delay * 2)
                       (rr\<lparr>attempts := attempts rr + 1, waits := waits rr @ [delay]\<rparr>)
                else (Inl (APIError ''Gemini API is overloaded after multiple retries.''
                             (Some 503) ''Gemini''),
                      rr\<lparr>attempts := attempts rr + 1\<rparr>))
             else (Inl (APIError (''Gemini API error: '' @ gen_message error)
                          (gen_status error) ''Gemini''),
                   rr\<lparr>attempts := attempts rr + 1\<rparr>))
      else (Inr None, rr))"
  by pat_completeness auto
termination
  by (relation "measure (\<lambda>(gen, retries, delay, rr). retries)") auto

declare retry_loop.simps [simp del]

text \<open>\<^verbatim>\<open>let retries = 3; let delay = 2000;\<close> and the loop.\<close>

definition summarizeConversations :: "gemini \<Rightarrow> (api_error + string option) \<times> retry_run" where
  "summarizeConversations gen = retry_loop gen 3 2000 \<lparr>attempts = 0, waits = []\<rparr>"

subsection \<open>The diagnostics manager\<close>

record service_stats =
  calls :: nat
  errors :: nat
  totalTime :: real

text \<open>
  The fields the constructor sets. \<open>startTime\<close> is the reading of \<^verbatim>\<open>Date.now()\<close> when the
  manager is constructed. \<open>apiCallStats\<close> is a plain object used as a table: the map holds
  its own properties, the entries stored under a service name.
\<close>

record diagnostics =
  startTime :: real
  requestCount :: nat
  errorCount :: nat
  apiCallStats :: "string \<rightharpoonup> service_stats"

definition DiagnosticsManager :: "real \<Rightarrow> diagnostics" where
  "DiagnosticsManager date_now =
     \<lparr>startTime = date_now, requestCount = 0, errorCount = 0,
      apiCallStats =
        [''ringcentral'' \<mapsto> \<lparr>calls = 0, errors = 0, totalTime = 0\<rparr>,
         ''gemini'' \<mapsto> \<lparr>calls = 0, errors = 0, totalTime = 0\<rparr>]\<rparr>"

text \<open>
  The handle \<^verbatim>\<open>startTimer\<close> returns. Its \<^verbatim>\<open>end\<close> is an arrow function, so the
  \<^verbatim>\<open>this\<close> in \<^verbatim>\<open>performance.now() - this.startTime\<close> is the manager, not the handle.
  Both functions take the reading of \<^verbatim>\<open>performance.now()\<close> at the moment of the call.
\<close>

record timer =
  operation :: string
  timer_startTime :: real
  end_timer :: "real \<Rightarrow> string \<times> real"

definition startTimer :: "diagnostics \<Rightarrow> string \<Rightarrow> real \<Rightarrow> timer" where
  "startTimer this op performance_now =
     \<lparr>operation = op,
      timer_startTime = performance_now,
      end_timer = (\<lambda>performance_now'. (op, performance_now' - startTime this))\<rparr>"

text \<open>
  A plain object inherits from \<^verbatim>\<open>Object.prototype\<close>: for a name that is not one of its own
  properties, \<^verbatim>\<open>this.apiCallStats[service]\<close> answers the property of that name of
  \<^verbatim>\<open>Object.prototype\<close>. These are the names \<^verbatim>\<open>Object.prototype\<close> has in ECMAScript
  (Annex B included, as in Node.js); each of them holds a function or an object, which is
  truthy.
\<close>

definition object_prototype_names :: "string list" where
  "object_prototype_names =
     [''constructor'', ''hasOwnProperty'', ''isPrototypeOf'', ''propertyIsEnumerable'',
      ''toLocaleString'', ''toString'', ''valueOf'', ''__proto__'',
      ''__defineGetter__'', ''__defineSetter__'', ''__lookupGetter__'', ''__lookupSetter__'']"

text \<open>
  \<open>error\<close> tells whether a truthy \<^verbatim>\<open>error\<close> argument was passed. When the table has no
  entry of its own for \<open>service\<close> and the name is inherited, the test
  \<^verbatim>\<open>!this.apiCallStats[service]\<close> is false: no entry is stored, and the three updates are
  written on the inherited object (where \<^verbatim>\<open>undefined + 1\<close> is \<^verbatim>\<open>NaN\<close>), so the table stays
  as it is.
\<close>

definition recordApiCall :: "string \<Rightarrow> real \<Rightarrow> bool \<Rightarrow> diagnostics \<Rightarrow> diagnostics" where
  "recordApiCall service duration error this =
     (if apiCallStats this service = None \<and> service \<in> set object_prototype_names then this
      else
        let entry = (case apiCallStats this service of
                       None \<Rightarrow> \<lparr>calls = 0, errors = 0, totalTime = 0\<rparr>
                     | Some e \<Rightarrow> e);
            entry1 = entry\<lparr>calls := calls entry + 1\<rparr>;
            entry2 = entry1\<lparr>totalTime := totalTime entry1 + duration\<rparr>;
            entry3 = (if error then entry2\<lparr>errors := errors entry2 + 1\<rparr> else entry2)
        in this\<lparr>apiCallStats := (apiCallStats this)(service \<mapsto> entry3)\<rparr>)"

definition recordRequest :: "bool \<Rightarrow> diagnostics \<Rightarrow> diagnostics" where
  "recordRequest error this =
     (let this1 = this\<lparr>requestCount := requestCount this + 1\<rparr>
      in if error then this1\<lparr>errorCount := errorCount this1 + 1\<rparr> else this1)"

section \<open>Vocabulary of the properties\<close>

subsection \<open>What a run of a fetcher exchanged with the platform\<close>

text \<open>The first exchange of a run is the probe; the others are the page requests.\<close>

definition probe_request :: "string \<Rightarrow> request" where
  "probe_request chatId = \<lparr>url = teams_endpoint chatId, recordCount = 1, req_pageToken = None\<rparr>"

definition page_exchanges :: "'s run \<Rightarrow> (request \<times> response) list" where
  "page_exchanges r = tl (exchanges r)"

text \<open>The route the discovery block takes for a given response to the probe.\<close>

definition resolution :: "string \<Rightarrow> response \<Rightarrow> api_error + string" where
  "resolution chatId resp =
     (case resp of
        Inr json \<Rightarrow> Inr (teams_endpoint chatId)
      | Inl e \<Rightarrow>
          if response_status e = Some 404 then Inr (chats_endpoint chatId)
          else Inl (APIError (''Failed to determine endpoint for chat '' @ chatId)
                      (err_status e) ''RingCentral''))"

text \<open>A page that holds a record older than the window.\<close>

definition has_older :: "int \<Rightarrow> response \<Rightarrow> bool" where
  "has_older dateFrom resp =
     (case resp of
        Inl e \<Rightarrow> False
      | Inr json \<Rightarrow> \<exists>m\<in>set (records json). creationTime m < dateFrom)"

text \<open>
  A page after which the history goes on: it arrived, it has records, none of them is older
  than the window, and it carries a continuation token.
\<close>

definition open_page :: "int \<Rightarrow> response \<Rightarrow> bool" where
  "open_page dateFrom resp =
     (case resp of
        Inl e \<Rightarrow> False
      | Inr json \<Rightarrow>
          records json \<noteq> [] \<and> (\<forall>m\<in>set (records json). \<not> creationTime m < dateFrom)
        \<and> truthy_token (nextPageToken json) \<noteq> None)"

definition page_records :: "response \<Rightarrow> message list" where
  "page_records resp = (case resp of Inl e \<Rightarrow> [] | Inr json \<Rightarrow> records json)"

definition page_request :: "string \<Rightarrow> request \<Rightarrow> bool" where
  "page_request endpoint req \<longleftrightarrow> url req = endpoint \<and> recordCount req = recordsPerPage"

text \<open>The request the loop issues in a state, and the state after a page with records.\<close>

definition page_query :: "string \<Rightarrow> fetch_state \<Rightarrow> request" where
  "page_query endpoint st =
     \<lparr>url = endpoint, recordCount = recordsPerPage, req_pageToken = truthy_token (pageToken st)\<rparr>"

definition advance :: "int \<Rightarrow> int \<Rightarrow> fetch_state \<Rightarrow> page \<Rightarrow> fetch_state" where
  "advance dateFrom dateTo st json =
     \<lparr>pageToken = truthy_token (nextPageToken json),
      pagesProcessed = pagesProcessed st + 1,
      allMessages = allMessages st @ filter (in_range dateFrom dateTo) (records json),
      foundOlderThanRange =
        (foundOlderThanRange st \<or> (\<exists>m\<in>set (records json). creationTime m < dateFrom))\<rparr>"

text \<open>
  What holds of the page exchanges \<open>ext\<close> of a loop started in state \<open>st\<close> and of its
  outcome \<open>res\<close>.
\<close>

definition loop_post ::
  "string \<Rightarrow> int \<Rightarrow> int \<Rightarrow> fetch_state \<Rightarrow> api_error + fetch_state \<Rightarrow>
     (request \<times> response) list \<Rightarrow> bool" where
  "loop_post ep f t st res ext \<longleftrightarrow>
     (\<forall>c\<in>set (butlast ext). open_page f (snd c))
   \<and> (\<forall>c\<in>set ext. page_request ep (fst c))
   \<and> (pagesProcessed st \<le> maxPages \<longrightarrow> pagesProcessed st + length ext \<le> maxPages)
   \<and> (case res of
        Inl err \<Rightarrow> ext \<noteq> [] \<and>
          (\<exists>e. snd (last ext) = Inl e
             \<and> err = page_failure (pagesProcessed st + length ext - 1) ep e)
      | Inr st' \<Rightarrow>
          (\<forall>c\<in>set ext. \<exists>json. snd c = Inr json)
        \<and> allMessages st' =
            allMessages st @ filter (in_range f t) (concat (map (page_records \<circ> snd) ext))
        \<and> (ext \<noteq> [] \<and> has_older f (snd (last ext)) \<longrightarrow> foundOlderThanRange st')
        \<and> ((\<forall>c\<in>set ext. open_page f (snd c)) \<and> \<not> foundOlderThanRange st
              \<and> pagesProcessed st \<le> maxPages
            \<longrightarrow> pagesProcessed st + length ext = maxPages \<and> pagesProcessed st' = maxPages))"


subsection \<open>The words of the specification\<close>

text \<open>
  The specification's "elapsed whole days between \<open>from\<close> and now": the number of
  complete days that have passed.
\<close>

definition elapsed_whole_days :: "int \<Rightarrow> int \<Rightarrow> int" where
  "elapsed_whole_days now dateFrom = (now - dateFrom) div (1000 * 60 * 60 * 24)"

text \<open>The transient-overload signal: a rejection whose message contains \<open>503\<close>.\<close>

definition transient_overload :: "gen_error + string \<Rightarrow> bool" where
  "transient_overload outcome =
     (case outcome of
        Inl error \<Rightarrow> str_includes (gen_message error) ''503''
      | Inr result \<Rightarrow> False)"

definition overload_failure :: api_error where
  "overload_failure =
     APIError ''Gemini API is overloaded after multiple retries.'' (Some 503) ''Gemini''"

subsection \<open>Sequences of metrics calls\<close>

datatype metrics_call = RecordRequest bool | RecordApiCall string real bool

fun apply_metrics_call :: "metrics_call \<Rightarrow> diagnostics \<Rightarrow> diagnostics" where
  "apply_metrics_call (RecordRequest error) this = recordRequest error this"
| "apply_metrics_call (RecordApiCall service duration error) this =
     recordApiCall service duration error this"

definition counters_consistent :: "diagnostics \<Rightarrow> bool" where
  "counters_consistent this \<longleftrightarrow>
     errorCount this \<le> requestCount this
   \<and> (\<forall>service entry. apiCallStats this service = Some entry \<longrightarrow> errors entry \<le> calls entry)"

section \<open>Sample collaborators\<close>

definition sample_message :: "int \<Rightarrow> message" where
  "sample_message t = \<lparr>post_id = ''m'', creatorId = ''u'', creationTime = t, msg_text = None\<rparr>"

text \<open>Two pages, newest first; the second page reaches below a window starting at 2.\<close>

definition sample_feed :: "unit platform" where
  "sample_feed s req =
     (if req_pageToken req = None
      then Inr \<lparr>records = map sample_message [9, 5, 3], nextPageToken = Some ''p2''\<rparr>
      else Inr \<lparr>records = map sample_message [2, 1], nextPageToken = Some ''p3''\<rparr>, s)"

text \<open>A history that never ends and never leaves the window.\<close>

definition endless_feed :: "unit platform" where
  "endless_feed s req =
     (Inr \<lparr>records = [sample_message 5], nextPageToken = Some ''next''\<rparr>, s)"

text \<open>The first page arrives, the request for the second one is rejected.\<close>

definition failing_feed :: "unit platform" where
  "failing_feed s req =
     (if req_pageToken req = None
      then Inr \<lparr>records = map sample_message [5, 3], nextPageToken = Some ''p2''\<rparr>
      else Inl \<lparr>response_status = Some 500, err_status = Some 500,
                err_message = ''Internal Server Error''\<rparr>, s)"


text \<open>A model that is overloaded three times, respectively twice, and then answers.\<close>

definition busy_then_ready :: gemini where
  "busy_then_ready k =
     (if k < 3
      then Inl \<lparr>gen_message = ''[503 Service Unavailable] The model is overloaded.'',
                gen_status = Some 503\<rparr>
      else Inr ''## Daily Case/Issue Summary'')"

definition busy_twice :: gemini where
  "busy_twice k =
     (if k < 2
      then Inl \<lparr>gen_message = ''[503 Service Unavailable] The model is overloaded.'',
                gen_status = Some 503\<rparr>
      else Inr ''## Daily Case/Issue Summary'')"

section \<open>Properties of the pagination loop\<close>

text \<open>
  The inner loop over the records of a page is a filter and a disjunction. The outer loop
  is unfolded once for each way an iteration can end, and \<open>loop_spec\<close> then collects, by
  induction on the number of pages still allowed, what a whole run of the loop exchanges
  and returns.
\<close>

lemma classify_eq:
  "classify f t rs (msgs, fo) =
     (msgs @ filter (in_range f t) rs, fo \<or> (\<exists>m\<in>set rs. creationTime m < f))"
  by (induction rs arbitrary: msgs fo) (auto simp: in_range_def)

lemma platform_get_exchanges:
  "platform_get pf req r = (resp, r') \<Longrightarrow>
   exchanges r' = exchanges r @ [(req, resp)] \<and> warnings r' = warnings r"
  by (auto simp: platform_get_def split: prod.splits)

lemma loop_stop:
  "\<not> (pagesProcessed st < maxPages \<and> \<not> foundOlderThanRange st) \<Longrightarrow>
   pagination_loop pf ep f t st r = (Inr st, r)"
  by (subst pagination_loop.simps) (simp only: simp_thms if_False)

lemma loop_fail:
  "pagesProcessed st < maxPages \<Longrightarrow> \<not> foundOlderThanRange st \<Longrightarrow>
   platform_get pf (page_query ep st) r = (Inl e, r1) \<Longrightarrow>
   pagination_loop pf ep f t st r = (Inl (page_failure (pagesProcessed st) ep e), r1)"
  by (subst pagination_loop.simps) (simp add: page_query_def)

lemma loop_empty:
  "pagesProcessed st < maxPages \<Longrightarrow> \<not> foundOlderThanRange st \<Longrightarrow>
   platform_get pf (page_query ep st) r = (Inr json, r1) \<Longrightarrow> records json = [] \<Longrightarrow>
   pagination_loop pf ep f t st r = (Inr st, r1)"
  by (subst pagination_loop.simps) (simp add: page_query_def)

lemma loop_last:
  "pagesProcessed st < maxPages \<Longrightarrow> \<not> foundOlderThanRange st \<Longrightarrow>
   platform_get pf (page_query ep st) r = (Inr json, r1) \<Longrightarrow> records json \<noteq> [] \<Longrightarrow>
   \<not> open_page f (Inr json) \<Longrightarrow>
   pagination_loop pf ep f t st r = (Inr (advance f t st json), r1)"
  by (subst pagination_loop.simps)
     (auto simp: page_query_def classify_eq Let_def open_page_def advance_def)

lemma loop_continue:
  "pagesProcessed st < maxPages \<Longrightarrow> \<not> foundOlderThanRange st \<Longrightarrow>
   platform_get pf (page_query ep st) r = (Inr json, r1) \<Longrightarrow> open_page f (Inr json) \<Longrightarrow>
   pagination_loop pf ep f t st r = pagination_loop pf ep f t (advance f t st json) r1"
  by (subst pagination_loop.simps)
     (auto simp: page_query_def classify_eq Let_def open_page_def advance_def)

lemma loop_post_stop:
  "\<not> (pagesProcessed st < maxPages \<and> \<not> foundOlderThanRange st) \<Longrightarrow>
   loop_post ep f t st (Inr st) []"
  by (auto simp: loop_post_def)

lemma loop_post_fail:
  "pagesProcessed st < maxPages \<Longrightarrow>
   loop_post ep f t st (Inl (page_failure (pagesProcessed st) ep e)) [(page_query ep st, Inl e)]"
  by (auto simp: loop_post_def page_request_def page_query_def)

lemma loop_post_empty:
  "records json = [] \<Longrightarrow> pagesProcessed st < maxPages \<Longrightarrow>
   loop_post ep f t st (Inr st) [(page_query ep st, Inr json)]"
  by (auto simp: loop_post_def page_request_def page_query_def page_records_def has_older_def
        open_page_def)

lemma loop_post_last:
  "\<not> open_page f (Inr json) \<Longrightarrow> pagesProcessed st < maxPages \<Longrightarrow>
   loop_post ep f t st (Inr (advance f t st json)) [(page_query ep st, Inr json)]"
  unfolding loop_post_def
  by (auto simp: page_request_def page_query_def page_records_def has_older_def
        advance_def open_page_def)

lemma loop_post_continue:
  assumes "open_page f (Inr json)" "pagesProcessed st < maxPages" "\<not> foundOlderThanRange st"
    and post: "loop_post ep f t (advance f t st json) res ext"
  shows "loop_post ep f t st res ((page_query ep st, Inr json) # ext)"
proof -
  have pp: "pagesProcessed (advance f t st json) = pagesProcessed st + 1"
    and am: "allMessages (advance f t st json) =
               allMessages st @ filter (in_range f t) (records json)"
    and fo: "\<not> foundOlderThanRange (advance f t st json)"
    using assms(1,3) by (auto simp: advance_def open_page_def)
  have no: "\<not> has_older f (Inr json)"
    using assms(1) by (auto simp: open_page_def has_older_def)
  have q: "page_request ep (page_query ep st)"
    by (simp add: page_request_def page_query_def)
  show ?thesis
  proof (cases res)
    case (Inl err)
    with post pp assms(1,2) q show ?thesis
      by (auto simp: loop_post_def dest: in_set_butlastD)
  next
    case (Inr st')
    with post pp am fo no assms(1,2) q show ?thesis
      by (auto simp: loop_post_def page_records_def dest: in_set_butlastD)
  qed
qed

lemma loop_spec:
  "pagination_loop pf ep f t st r = (res, r') \<Longrightarrow>
   \<exists>ext. exchanges r' = exchanges r @ ext \<and> warnings r' = warnings r \<and> loop_post ep f t st res ext"
proof (induction n \<equiv> "maxPages - pagesProcessed st" arbitrary: st r)
  case 0
  then have "\<not> (pagesProcessed st < maxPages \<and> \<not> foundOlderThanRange st)" by simp
  with "0.prems" loop_stop [of st pf ep f t r] loop_post_stop [of st ep f t]
  show ?case by auto
next
  case (Suc n)
  then have lt: "pagesProcessed st < maxPages" by simp
  show ?case
  proof (cases "foundOlderThanRange st")
    case True
    with Suc.prems loop_stop [of st pf ep f t r] loop_post_stop [of st ep f t]
    show ?thesis by auto
  next
    case nf: False
    obtain resp r1 where g: "platform_get pf (page_query ep st) r = (resp, r1)"
      by (cases "platform_get pf (page_query ep st) r") auto
    note c1 = platform_get_exchanges [OF g]
    show ?thesis
    proof (cases resp)
      case (Inl e)
      with Suc.prems loop_fail [OF lt nf, of pf ep r e r1 f t] g
      have "res = Inl (page_failure (pagesProcessed st) ep e)" "r' = r1" by auto
      with c1 Inl loop_post_fail [OF lt, of ep f t e] show ?thesis by auto
    next
      case (Inr json)
      show ?thesis
      proof (cases "records json = []")
        case True
        with Suc.prems loop_empty [OF lt nf, of pf ep r json r1 f t] g Inr
        have "res = Inr st" "r' = r1" by auto
        with c1 Inr loop_post_empty [OF True lt, of ep f t] show ?thesis by auto
      next
        case ne: False
        show ?thesis
        proof (cases "open_page f (Inr json)")
          case False
          with Suc.prems loop_last [OF lt nf, of pf ep r json r1 f t] g Inr ne
          have "res = Inr (advance f t st json)" "r' = r1" by auto
          with c1 Inr loop_post_last [OF False lt, of ep t] show ?thesis by auto
        next
          case True
          with Suc.prems loop_continue [OF lt nf, of pf ep r json r1 f t] g Inr
          have rec: "pagination_loop pf ep f t (advance f t st json) r1 = (res, r')" by auto
          have "n = maxPages - pagesProcessed (advance f t st json)"
            using Suc.hyps(2) by (simp add: advance_def)
          from Suc.hyps(1) [OF this rec]
          obtain ext where e: "exchanges r' = exchanges r1 @ ext" "warnings r' = warnings r1"
            "loop_post ep f t (advance f t st json) res ext" by blast
          from loop_post_continue [OF True lt nf e(3)] e(1,2) c1 Inr
          show ?thesis by auto
        qed
      qed
    qed
  qed
qed

section \<open>Properties of the fetchers\<close>

text \<open>
  A call of either fetcher ends in one of three ways: the route is not resolved, a page
  request is rejected, or messages are returned. The two case rules below say what was
  exchanged and what comes back in each of them.
\<close>

lemma discovery_spec:
  "endpoint_discovery pf chatId (start_run s) = (res, r1) \<Longrightarrow>
   \<exists>resp. exchanges r1 = [(probe_request chatId, resp)] \<and> warnings r1 = []
      \<and> res = resolution chatId resp"
proof -
  assume a: "endpoint_discovery pf chatId (start_run s) = (res, r1)"
  obtain resp r0 where g: "platform_get pf (probe_request chatId) (start_run s) = (resp, r0)"
    by (cases "platform_get pf (probe_request chatId) (start_run s)") auto
  from platform_get_exchanges [OF g]
  have c: "exchanges r0 = [(probe_request chatId, resp)]" "warnings r0 = []"
    by (simp_all add: start_run_def)
  from a g have "res = resolution chatId resp \<and> r1 = r0"
    by (cases resp)
       (auto simp: endpoint_discovery_def probe_request_def resolution_def split: if_splits)
  with c show ?thesis by blast
qed

lemma enhanced_cases:
  assumes "fetchChatMessagesEnhanced pf s chatId f t = (res, r)"
  obtains
    (unresolved) resp err where
      "exchanges r = [(probe_request chatId, resp)]" "resolution chatId resp = Inl err"
      "res = Inl err" "warnings r = []"
  | (failed) resp ep pages err where
      "exchanges r = (probe_request chatId, resp) # pages" "resolution chatId resp = Inr ep"
      "loop_post ep f t initial_fetch_state (Inl err) pages"
      "res = Inl err" "warnings r = []"
  | (fetched) resp ep pages st where
      "exchanges r = (probe_request chatId, resp) # pages" "resolution chatId resp = Inr ep"
      "loop_post ep f t initial_fetch_state (Inr st) pages"
      "res = Inr (sort_key creationTime (allMessages st))"
      "warnings r = (if maxPages \<le> pagesProcessed st then [page_limit_warning] else [])"
proof -
  obtain dres r1 where d: "endpoint_discovery pf chatId (start_run s) = (dres, r1)"
    by (cases "endpoint_discovery pf chatId (start_run s)") auto
  from discovery_spec [OF d] obtain resp where
    p: "exchanges r1 = [(probe_request chatId, resp)]" "warnings r1 = []" "dres = resolution chatId resp"
    by blast
  show ?thesis
  proof (cases dres)
    case (Inl err)
    with assms d have "res = Inl err" "r = r1"
      by (auto simp: fetchChatMessagesEnhanced_def)
    moreover have "resolution chatId resp = Inl err"
      using p(3) Inl by simp
    ultimately show ?thesis
      using p(1,2) by (intro unresolved [of resp err]) simp_all
  next
    case (Inr ep)
    then have rs: "resolution chatId resp = Inr ep"
      using p(3) by simp
    obtain lres r2 where l: "pagination_loop pf ep f t initial_fetch_state r1 = (lres, r2)"
      by (cases "pagination_loop pf ep f t initial_fetch_state r1") auto
    from loop_spec [OF l] obtain ext where
      e: "exchanges r2 = exchanges r1 @ ext" "warnings r2 = warnings r1"
         "loop_post ep f t initial_fetch_state lres ext"
      by blast
    show ?thesis
    proof (cases lres)
      case il: (Inl err)
      with assms d l Inr have "res = Inl err" "r = r2"
        by (auto simp: fetchChatMessagesEnhanced_def)
      with e p(1,2) il rs show ?thesis
        by (intro failed [of resp ext ep err]) simp_all
    next
      case ir: (Inr st)
      with assms d l Inr have "res = Inr (sort_key creationTime (allMessages st))"
        "exchanges r = exchanges r2"
        "warnings r = (if maxPages \<le> pagesProcessed st then warnings r2 @ [page_limit_warning] else warnings r2)"
        by (auto simp: fetchChatMessagesEnhanced_def)
      with e p(1,2) ir rs show ?thesis
        by (intro fetched [of resp ext ep st]) simp_all
    qed
  qed
qed

lemma simple_cases:
  assumes "fetchChatMessagesSimple pf s chatId f t = (res, r)"
  obtains
    (unresolved) resp err where
      "exchanges r = [(probe_request chatId, resp)]" "resolution chatId resp = Inl err"
      "res = Inl err"
  | (failed) resp ep e where
      "exchanges r = [(probe_request chatId, resp),
                  (\<lparr>url = ep, recordCount = 250, req_pageToken = None\<rparr>, Inl e)]"
      "resolution chatId resp = Inr ep"
      "res = Inl (APIError (''Failed to fetch messages from '' @ ep) (err_status e) ''RingCentral'')"
  | (fetched) resp ep json where
      "exchanges r = [(probe_request chatId, resp),
                  (\<lparr>url = ep, recordCount = 250, req_pageToken = None\<rparr>, Inr json)]"
      "resolution chatId resp = Inr ep"
      "res = Inr (rev (filter (in_range f t) (records json)))"
proof -
  obtain dres r1 where d: "endpoint_discovery pf chatId (start_run s) = (dres, r1)"
    by (cases "endpoint_discovery pf chatId (start_run s)") auto
  from discovery_spec [OF d] obtain resp where
    p: "exchanges r1 = [(probe_request chatId, resp)]" "dres = resolution chatId resp"
    by blast
  show ?thesis
  proof (cases dres)
    case (Inl err)
    with assms d have "res = Inl err" "r = r1"
      by (auto simp: fetchChatMessagesSimple_def)
    with p Inl show ?thesis
      by (intro unresolved [of resp err]) simp_all
  next
    case (Inr ep)
    let ?q = "\<lparr>url = ep, recordCount = 250, req_pageToken = None\<rparr>"
    obtain resp2 r2 where g: "platform_get pf ?q r1 = (resp2, r2)"
      by (cases "platform_get pf ?q r1") auto
    from platform_get_exchanges [OF g] p(1)
    have x: "exchanges r2 = [(probe_request chatId, resp), (?q, resp2)]" by simp
    show ?thesis
    proof (cases resp2)
      case il: (Inl e)
      with assms d g Inr
      have "res = Inl (APIError (''Failed to fetch messages from '' @ ep) (err_status e) ''RingCentral'')"
        "r = r2"
        by (auto simp: fetchChatMessagesSimple_def)
      with x il p(2) Inr show ?thesis
        by (intro failed [of resp ep e]) simp_all
    next
      case ir: (Inr json)
      with assms d g Inr
      have "res = Inr (rev (filter (in_range f t) (records json)))" "r = r2"
        by (auto simp: fetchChatMessagesSimple_def)
      with x ir p(2) Inr show ?thesis
        by (intro fetched [of resp ep json]) simp_all
    qed
  qed
qed

lemma loop_post_messages:
  "loop_post ep f t initial_fetch_state (Inr st) pages \<Longrightarrow>
   allMessages st = filter (in_range f t) (concat (map (page_records \<circ> snd) pages))"
  by (simp add: loop_post_def initial_fetch_state_def)

lemma loop_post_only_last_closed:
  assumes "loop_post ep f t st0 lres pages" "i < length pages"
    "\<not> open_page f (snd (pages ! i))"
  shows "Suc i = length pages" "pages ! i = last pages"
proof -
  have op: "\<forall>c\<in>set (butlast pages). open_page f (snd c)"
    using assms(1) by (simp add: loop_post_def)
  show l: "Suc i = length pages"
  proof (rule ccontr)
    assume "Suc i \<noteq> length pages"
    with assms(2) have b: "i < length (butlast pages)" by simp
    then have "butlast pages ! i \<in> set (butlast pages)" by (rule nth_mem)
    moreover have "butlast pages ! i = pages ! i"
      using b by (simp add: nth_butlast)
    ultimately show False using op assms(3) by auto
  qed
  from assms(2) have "pages \<noteq> []" by auto
  with l [symmetric] show "pages ! i = last pages"
    by (simp add: last_conv_nth)
qed


lemma reverse_ascending:
  assumes "sorted (rev (map creationTime xs))"
  shows "sorted (map creationTime (rev (filter P xs)))"
proof -
  from assms have "sorted_wrt (\<lambda>x y. creationTime y \<le> creationTime x) xs"
    by (simp add: sorted_wrt_rev sorted_wrt_map)
  then have "sorted_wrt (\<lambda>x y. creationTime y \<le> creationTime x) (filter P xs)"
    by (rule sorted_wrt_filter)
  then show ?thesis
    by (simp add: sorted_wrt_rev sorted_wrt_map)
qed



lemma daysDifference_le_3:
  "daysDifference now dateFrom \<le> 3 \<longleftrightarrow> now - dateFrom \<le> 259200000"
proof -
  have "daysDifference now dateFrom \<le> 3 \<longleftrightarrow> real_of_int (now - dateFrom) / 86400000 \<le> 3"
    by (simp add: daysDifference_def ceiling_le_iff)
  also have "\<dots> \<longleftrightarrow> real_of_int (now - dateFrom) \<le> 259200000"
    by (simp add: field_simps)
  also have "\<dots> \<longleftrightarrow> now - dateFrom \<le> 259200000"
    by linarith
  finally show ?thesis .
qed

section \<open>Properties of the retry loop\<close>

lemma retry_overload_more:
  "transient_overload (gen (attempts rr)) \<Longrightarrow> Suc 0 < retries \<Longrightarrow>
   retry_loop gen retries delay rr =
     retry_loop gen (retries - 1) (delay * 2)
       (rr\<lparr>attempts := attempts rr + 1, waits := waits rr @ [delay]\<rparr>)"
  by (subst retry_loop.simps) (auto simp: transient_overload_def split: sum.splits)

lemma retry_overload_last:
  "transient_overload (gen (attempts rr)) \<Longrightarrow>
   retry_loop gen (Suc 0) delay rr = (Inl overload_failure, rr\<lparr>attempts := attempts rr + 1\<rparr>)"
  by (subst retry_loop.simps) (auto simp: transient_overload_def overload_failure_def split: sum.splits)

lemma retry_success:
  "gen (attempts rr) = Inr result \<Longrightarrow> 0 < retries \<Longrightarrow>
   retry_loop gen retries delay rr = (Inr (Some result), rr\<lparr>attempts := attempts rr + 1\<rparr>)"
  by (subst retry_loop.simps) simp

section \<open>Properties of the metrics\<close>

lemma recordApiCall_entry:
  "apiCallStats (recordApiCall service duration error this) name =
     (if name = service
      then (case apiCallStats this service of
              None \<Rightarrow>
                if service \<in> set object_prototype_names then None
                else Some \<lparr>calls = 1, errors = (if error then 1 else 0), totalTime = duration\<rparr>
            | Some e \<Rightarrow> Some \<lparr>calls = calls e + 1, errors = (if error then errors e + 1 else errors e),
                              totalTime = totalTime e + duration\<rparr>)
      else apiCallStats this name)"
  by (simp add: recordApiCall_def Let_def split: option.splits)

lemma recordApiCall_counts:
  "requestCount (recordApiCall service duration error this) = requestCount this"
  "errorCount (recordApiCall service duration error this) = errorCount this"
  by (simp_all add: recordApiCall_def Let_def)

lemma recordRequest_fields:
  "requestCount (recordRequest error this) = requestCount this + 1"
  "errorCount (recordRequest error this) = (if error then errorCount this + 1 else errorCount this)"
  "apiCallStats (recordRequest error this) = apiCallStats this"
  by (simp_all add: recordRequest_def Let_def)

lemma consistent_initial: "counters_consistent (DiagnosticsManager date_now)"
  by (simp add: counters_consistent_def DiagnosticsManager_def)

lemma consistent_step:
  "counters_consistent this \<Longrightarrow> counters_consistent (apply_metrics_call c this)"
proof (cases c)
  case (RecordRequest error)
  assume "counters_consistent this"
  with RecordRequest show ?thesis
    by (simp add: counters_consistent_def recordRequest_fields)
next
  case (RecordApiCall service duration error)
  assume a: "counters_consistent this"
  then have e: "\<And>name entry. apiCallStats this name = Some entry \<Longrightarrow> errors entry \<le> calls entry"
    by (simp add: counters_consistent_def)
  from a have "errorCount this \<le> requestCount this"
    by (simp add: counters_consistent_def)
  with RecordApiCall show ?thesis
    by (auto simp: counters_consistent_def recordApiCall_entry recordApiCall_counts
          split: option.splits if_splits dest: e intro: le_SucI)
qed

lemma consistent_fold:
  "counters_consistent this \<Longrightarrow> counters_consistent (fold apply_metrics_call history this)"
  by (induction history arbitrary: this) (simp_all add: consistent_step)

section \<open>Evaluating the fetchers on the samples\<close>

lemmas fetch_eval =
  fetchChatMessagesEnhanced_def endpoint_discovery_def platform_get_def start_run_def
  pagination_loop.simps initial_fetch_state_def maxPages_def recordsPerPage_def truthy_token_def
  teams_endpoint_def chats_endpoint_def page_failure_def page_limit_warning_def

lemmas simple_eval =
  fetchChatMessagesSimple_def endpoint_discovery_def platform_get_def start_run_def
  teams_endpoint_def chats_endpoint_def in_range_def

lemma sample_run:
  "fetchChatMessagesEnhanced sample_feed () ''42'' 2 6 =
     (Inr (map sample_message [2, 3, 5]),
      \<lparr>upstream = (),
       exchanges =
         [(\<lparr>url = ''/restapi/v1.0/glip/teams/42/posts'', recordCount = 1, req_pageToken = None\<rparr>,
           Inr \<lparr>records = map sample_message [9, 5, 3], nextPageToken = Some ''p2''\<rparr>),
          (\<lparr>url = ''/restapi/v1.0/glip/teams/42/posts'', recordCount = 250, req_pageToken = None\<rparr>,
           Inr \<lparr>records = map sample_message [9, 5, 3], nextPageToken = Some ''p2''\<rparr>),
          (\<lparr>url = ''/restapi/v1.0/glip/teams/42/posts'', recordCount = 250,
             req_pageToken = Some ''p2''\<rparr>,
           Inr \<lparr>records = map sample_message [2, 1], nextPageToken = Some ''p3''\<rparr>)],
       warnings = []\<rparr>)"
  by (simp add: fetch_eval sample_feed_def sample_message_def)

lemma failing_run:
  "fetchChatMessagesEnhanced failing_feed () ''42'' 2 6 =
     (Inl (APIError ''Failed to fetch page 2 from /restapi/v1.0/glip/teams/42/posts''
             (Some 500) ''RingCentral''),
      \<lparr>upstream = (),
       exchanges =
         [(\<lparr>url = ''/restapi/v1.0/glip/teams/42/posts'', recordCount = 1, req_pageToken = None\<rparr>,
           Inr \<lparr>records = map sample_message [5, 3], nextPageToken = Some ''p2''\<rparr>),
          (\<lparr>url = ''/restapi/v1.0/glip/teams/42/posts'', recordCount = 250, req_pageToken = None\<rparr>,
           Inr \<lparr>records = map sample_message [5, 3], nextPageToken = Some ''p2''\<rparr>),
          (\<lparr>url = ''/restapi/v1.0/glip/teams/42/posts'', recordCount = 250,
             req_pageToken = Some ''p2''\<rparr>,
           Inl \<lparr>response_status = Some 500, err_status = Some 500,
                 err_message = ''Internal Server Error''\<rparr>)],
       warnings = []\<rparr>)"
  by (simp add: fetch_eval failing_feed_def sample_message_def show_nat.simps digit_char_def)



lemma sample_simple_run:
  "fst (fetchChatMessagesSimple sample_feed () ''42'' 2 6) = Inr (map sample_message [3, 5])"
  by (simp add: simple_eval sample_feed_def sample_message_def)

lemma endless_run:
  "length (page_exchanges (snd (fetchChatMessagesEnhanced endless_feed () ''42'' 2 6))) = 20
 \<and> (\<forall>c\<in>set (page_exchanges (snd (fetchChatMessagesEnhanced endless_feed () ''42'' 2 6))).
       open_page 2 (snd c))
 \<and> (\<exists>ep. resolution ''42''
        (snd (hd (exchanges (snd (fetchChatMessagesEnhanced endless_feed () ''42'' 2 6))))) = Inr ep)"
  by (simp add: fetch_eval endless_feed_def sample_message_def page_exchanges_def open_page_def
        resolution_def)

section \<open>The claims\<close>

subsection \<open>The paginated date-range fetcher\<close>

text \<open>
  C1. Whatever the upstream service answers and whatever the window, the messages that
  \<^verbatim>\<open>fetchChatMessagesEnhanced\<close> returns all have a \<open>creationTime\<close> within the window,
  both bounds included, and are in non-decreasing order of \<open>creationTime\<close>. The window need
  not even satisfy \<open>dateFrom \<le> dateTo\<close>.
\<close>

theorem fetched_in_window_sorted:
  assumes "fetchChatMessagesEnhanced pf s chatId dateFrom dateTo = (Inr msgs, r)"
  shows "(\<forall>m\<in>set msgs. dateFrom \<le> creationTime m \<and> creationTime m \<le> dateTo)
       \<and> sorted (map creationTime msgs)"
  using assms
proof (cases rule: enhanced_cases)
  case (fetched resp ep pages st)
  from loop_post_messages [OF fetched(3)]
  have "\<forall>m\<in>set (allMessages st). in_range dateFrom dateTo m" by simp
  with fetched(4) show ?thesis
    by (simp add: in_range_def)
qed simp_all

text \<open>The sample feed, window \<open>[2, 6]\<close>: the three messages inside the window come back.\<close>

theorem fetched_in_window_sorted_witness:
  "fst (fetchChatMessagesEnhanced sample_feed () ''42'' 2 6) = Inr (map sample_message [2, 3, 5])
 \<and> list_all (\<lambda>m. 2 \<le> creationTime m \<and> creationTime m \<le> 6) (map sample_message [2, 3, 5])
 \<and> sorted (map creationTime (map sample_message [2, 3, 5]))"
  using fetched_in_window_sorted [OF sample_run] by (simp add: sample_run list_all_iff)

text \<open>
  C2. In every run of \<^verbatim>\<open>fetchChatMessagesEnhanced\<close>, a page that holds a record older than
  \<open>dateFrom\<close> is the last page requested: classifying it sets \<open>foundOlderThanRange\<close>,
  whatever the flag and the messages were before, no request follows it, and the fetch
  returns normally.
\<close>

theorem pagination_stops_at_older:
  assumes "fetchChatMessagesEnhanced pf s chatId dateFrom dateTo = (res, r)"
    and "i < length (page_exchanges r)"
    and "has_older dateFrom (snd (page_exchanges r ! i))"
  shows "Suc i = length (page_exchanges r)
       \<and> snd (classify dateFrom dateTo (page_records (snd (page_exchanges r ! i))) (msgs, found))
       \<and> (\<exists>result. res = Inr result)"
proof -
  have flag: "snd (classify dateFrom dateTo (page_records (snd (page_exchanges r ! i))) (msgs, found))"
    using assms(3) by (auto simp: classify_eq has_older_def page_records_def split: sum.splits)
  have closed: "\<not> open_page dateFrom (snd (page_exchanges r ! i))"
    using assms(3) by (auto simp: open_page_def has_older_def split: sum.splits)
  from assms(1) show ?thesis
  proof (cases rule: enhanced_cases)
    case (unresolved resp err)
    with assms(2) show ?thesis by (simp add: page_exchanges_def)
  next
    case (failed resp ep pages err)
    then have lp: "loop_post ep dateFrom dateTo initial_fetch_state (Inl err) (page_exchanges r)"
      by (simp add: page_exchanges_def)
    from loop_post_only_last_closed(2) [OF lp assms(2) closed]
    have "page_exchanges r ! i = last (page_exchanges r)" .
    moreover have "\<exists>e. snd (last (page_exchanges r)) = Inl e"
      using lp by (auto simp: loop_post_def)
    ultimately show ?thesis using assms(3) by (auto simp: has_older_def)
  next
    case (fetched resp ep pages st)
    then have lp: "loop_post ep dateFrom dateTo initial_fetch_state (Inr st) (page_exchanges r)"
      by (simp add: page_exchanges_def)
    from loop_post_only_last_closed(1) [OF lp assms(2) closed]
    have "Suc i = length (page_exchanges r)" .
    with flag fetched(4) show ?thesis by simp
  qed
qed

text \<open>The sample feed: the second page holds a message of time 1, below the window.\<close>

theorem pagination_stops_at_older_witness:
  "Suc 0 < length (page_exchanges (snd (fetchChatMessagesEnhanced sample_feed () ''42'' 2 6)))
 \<and> has_older 2 (snd (page_exchanges (snd (fetchChatMessagesEnhanced sample_feed () ''42'' 2 6)) ! Suc 0))
 \<and> length (page_exchanges (snd (fetchChatMessagesEnhanced sample_feed () ''42'' 2 6))) = 2"
proof -
  let ?r = "snd (fetchChatMessagesEnhanced sample_feed () ''42'' 2 6)"
  have run: "fetchChatMessagesEnhanced sample_feed () ''42'' 2 6 =
               (Inr (map sample_message [2, 3, 5]), ?r)"
    by (simp add: sample_run)
  have i: "Suc 0 < length (page_exchanges ?r)"
    by (simp add: sample_run page_exchanges_def)
  have o: "has_older 2 (snd (page_exchanges ?r ! Suc 0))"
    by (simp add: sample_run page_exchanges_def has_older_def sample_message_def)
  from pagination_stops_at_older [OF run i o, of "[]" False] i o show ?thesis
    by simp
qed

text \<open>
  C3. If the probe resolves a route and every page that \<^verbatim>\<open>fetchChatMessagesEnhanced\<close>
  receives is an open page (it arrives, has records, none older than \<open>dateFrom\<close>, and
  carries a continuation token), then the run issues exactly 20 page requests, returns the
  in-window messages of those 20 pages in order of \<open>creationTime\<close>, and logs the page-limit
  warning instead of failing.
\<close>

theorem page_cap_reached:
  assumes "fetchChatMessagesEnhanced pf s chatId dateFrom dateTo = (res, r)"
    and "\<exists>ep. resolution chatId (snd (hd (exchanges r))) = Inr ep"
    and "\<forall>c\<in>set (page_exchanges r). open_page dateFrom (snd c)"
  shows "length (page_exchanges r) = 20
       \<and> res = Inr (sort_key creationTime
                 (filter (in_range dateFrom dateTo)
                    (concat (map (page_records \<circ> snd) (page_exchanges r)))))
       \<and> warnings r = [page_limit_warning]"
  using assms(1)
proof (cases rule: enhanced_cases)
  case (unresolved resp err)
  with assms(2) show ?thesis by simp
next
  case (failed resp ep pages err)
  then have lp: "loop_post ep dateFrom dateTo initial_fetch_state (Inl err) (page_exchanges r)"
    by (simp add: page_exchanges_def)
  then have ne: "page_exchanges r \<noteq> []" and "\<exists>e. snd (last (page_exchanges r)) = Inl e"
    by (auto simp: loop_post_def)
  then obtain e where "snd (last (page_exchanges r)) = Inl e" by blast
  then have "\<not> open_page dateFrom (snd (last (page_exchanges r)))"
    by (simp add: open_page_def)
  moreover from ne have "last (page_exchanges r) \<in> set (page_exchanges r)" by simp
  ultimately show ?thesis using assms(3) by blast
next
  case (fetched resp ep pages st)
  then have lp: "loop_post ep dateFrom dateTo initial_fetch_state (Inr st) (page_exchanges r)"
    by (simp add: page_exchanges_def)
  with assms(3) have "length (page_exchanges r) = maxPages" "pagesProcessed st = maxPages"
    by (auto simp: loop_post_def initial_fetch_state_def)
  with fetched(4,5) loop_post_messages [OF lp] show ?thesis
    by (simp add: maxPages_def)
qed

text \<open>The endless feed: twenty pages are requested, and the run ends with the warning.\<close>

theorem page_cap_reached_witness:
  "length (page_exchanges (snd (fetchChatMessagesEnhanced endless_feed () ''42'' 2 6))) = 20
 \<and> fst (fetchChatMessagesEnhanced endless_feed () ''42'' 2 6) =
     Inr (sort_key creationTime
            (filter (in_range 2 6)
               (concat (map (page_records \<circ> snd)
                  (page_exchanges (snd (fetchChatMessagesEnhanced endless_feed () ''42'' 2 6)))))))
 \<and> warnings (snd (fetchChatMessagesEnhanced endless_feed () ''42'' 2 6)) =
     [''Reached maximum page limit during message fetch'']"
proof -
  let ?x = "fetchChatMessagesEnhanced endless_feed () ''42'' 2 6"
  have run: "?x = (fst ?x, snd ?x)" by simp
  from endless_run have p: "\<exists>ep. resolution ''42'' (snd (hd (exchanges (snd ?x)))) = Inr ep"
    and o: "\<forall>c\<in>set (page_exchanges (snd ?x)). open_page 2 (snd c)"
    by blast+
  from page_cap_reached [OF run p o] show ?thesis
    by (simp add: page_limit_warning_def)
qed

text \<open>
  C7. If a page request of \<^verbatim>\<open>fetchChatMessagesEnhanced\<close> is rejected, it is the last request
  of the run and the fetch returns no messages at all: its outcome is the \<^verbatim>\<open>APIError\<close> whose
  message gives the number of the page (counted from 1) and the route requested, with the
  status of the rejection.
\<close>

theorem page_failure_aborts:
  assumes "fetchChatMessagesEnhanced pf s chatId dateFrom dateTo = (res, r)"
    and "i < length (page_exchanges r)"
    and "page_exchanges r ! i = (req, Inl e)"
  shows "Suc i = length (page_exchanges r)
       \<and> res = Inl (APIError (''Failed to fetch page '' @ show_nat (Suc i) @ '' from '' @ url req)
                 (err_status e) ''RingCentral'')"
proof -
  have closed: "\<not> open_page dateFrom (snd (page_exchanges r ! i))"
    using assms(3) by (simp add: open_page_def)
  have mem: "(req, Inl e) \<in> set (page_exchanges r)"
    using assms(2,3) by (metis nth_mem)
  from assms(1) show ?thesis
  proof (cases rule: enhanced_cases)
    case (unresolved resp err)
    with assms(2) show ?thesis by (simp add: page_exchanges_def)
  next
    case (failed resp ep pages err)
    then have lp: "loop_post ep dateFrom dateTo initial_fetch_state (Inl err) (page_exchanges r)"
      by (simp add: page_exchanges_def)
    from loop_post_only_last_closed [OF lp assms(2) closed]
    have l: "Suc i = length (page_exchanges r)" "page_exchanges r ! i = last (page_exchanges r)" by simp_all
    with assms(3) have li: "last (page_exchanges r) = (req, Inl e)" by simp
    from lp mem have "url req = ep"
      by (auto simp: loop_post_def page_request_def)
    moreover from lp li l(1) [symmetric] have "err = page_failure i ep e"
      by (auto simp: loop_post_def initial_fetch_state_def)
    ultimately show ?thesis using failed(4) l(1) by (simp add: page_failure_def)
  next
    case (fetched resp ep pages st)
    then have lp: "loop_post ep dateFrom dateTo initial_fetch_state (Inr st) (page_exchanges r)"
      by (simp add: page_exchanges_def)
    with mem show ?thesis by (auto simp: loop_post_def)
  qed
qed

text \<open>The failing feed: the second page request is rejected with status 500.\<close>

theorem page_failure_aborts_witness:
  "page_exchanges (snd (fetchChatMessagesEnhanced failing_feed () ''42'' 2 6)) ! Suc 0 =
     (\<lparr>url = ''/restapi/v1.0/glip/teams/42/posts'', recordCount = 250,
        req_pageToken = Some ''p2''\<rparr>,
      Inl \<lparr>response_status = Some 500, err_status = Some 500,
            err_message = ''Internal Server Error''\<rparr>)
 \<and> length (page_exchanges (snd (fetchChatMessagesEnhanced failing_feed () ''42'' 2 6))) = 2
 \<and> fst (fetchChatMessagesEnhanced failing_feed () ''42'' 2 6) =
     Inl (APIError ''Failed to fetch page 2 from /restapi/v1.0/glip/teams/42/posts''
            (Some 500) ''RingCentral'')"
proof -
  let ?x = "fetchChatMessagesEnhanced failing_feed () ''42'' 2 6"
  have run: "?x = (fst ?x, snd ?x)" by simp
  have i: "Suc 0 < length (page_exchanges (snd ?x))"
    by (simp add: failing_run page_exchanges_def)
  have e: "page_exchanges (snd ?x) ! Suc 0 =
     (\<lparr>url = ''/restapi/v1.0/glip/teams/42/posts'', recordCount = 250,
        req_pageToken = Some ''p2''\<rparr>,
      Inl \<lparr>response_status = Some 500, err_status = Some 500,
            err_message = ''Internal Server Error''\<rparr>)"
    by (simp add: failing_run page_exchanges_def)
  have "show_nat (Suc (Suc 0)) = ''2''"
    by (simp add: show_nat.simps digit_char_def)
  with page_failure_aborts [OF run i e] e show ?thesis
    by simp
qed

subsection \<open>Route resolution\<close>



subsection \<open>The strategy selector\<close>

text \<open>
  C8, against the specification's words. With \<open>dateFrom\<close> three days and one millisecond
  before \<open>now\<close>, three whole days have elapsed, yet \<^verbatim>\<open>fetchChatMessagesSmart\<close> does what
  the paginated fetcher does and not what the single-page fetch does: on the sample feed
  they differ.
\<close>

theorem strategy_whole_days_counterexample:
  "elapsed_whole_days 259200003 2 = 3
 \<and> fetchChatMessagesSmart sample_feed () ''42'' 2 6 259200003 =
     fetchChatMessagesEnhanced sample_feed () ''42'' 2 6
 \<and> fetchChatMessagesSmart sample_feed () ''42'' 2 6 259200003 \<noteq>
     fetchChatMessagesSimple sample_feed () ''42'' 2 6"
proof -
  have d: "\<not> daysDifference 259200003 2 \<le> 3"
    by (simp add: daysDifference_le_3)
  have "fst (fetchChatMessagesEnhanced sample_feed () ''42'' 2 6) \<noteq>
        fst (fetchChatMessagesSimple sample_feed () ''42'' 2 6)"
    by (simp add: sample_run sample_simple_run sample_message_def)
  then have "fetchChatMessagesEnhanced sample_feed () ''42'' 2 6 \<noteq>
     fetchChatMessagesSimple sample_feed () ''42'' 2 6"
    by auto
  with d show ?thesis
    by (simp add: fetchChatMessagesSmart_def elapsed_whole_days_def)
qed

text \<open>
  C8, as the code has it. \<^verbatim>\<open>fetchChatMessagesSmart\<close> rounds the elapsed days up
  (\<^verbatim>\<open>Math.ceil\<close>), so it delegates to \<^verbatim>\<open>fetchChatMessagesSimple\<close> exactly when
  \<open>now - dateFrom\<close> is at most three days (259200000 ms), and to
  \<^verbatim>\<open>fetchChatMessagesEnhanced\<close> otherwise. When the single-page fetch returns messages, it
  has made one request after the probe, for 250 records and without a page token, and the
  messages are the in-window records of that page in reverse order: for a page that lists
  its records newest first, as the upstream feed does, that is ascending order of
  \<open>creationTime\<close>.
\<close>

theorem strategy_selector:
  "fetchChatMessagesSmart pf s chatId dateFrom dateTo now =
     (if now - dateFrom \<le> 3 * 86400000
      then fetchChatMessagesSimple pf s chatId dateFrom dateTo
      else fetchChatMessagesEnhanced pf s chatId dateFrom dateTo)
 \<and> (fetchChatMessagesSimple pf s chatId dateFrom dateTo = (Inr msgs, r) \<longrightarrow>
      (\<exists>probe endpoint json.
         exchanges r = [probe, (\<lparr>url = endpoint, recordCount = 250, req_pageToken = None\<rparr>, Inr json)]
       \<and> msgs = rev (filter (in_range dateFrom dateTo) (records json))
       \<and> (sorted (rev (map creationTime (records json))) \<longrightarrow>
            sorted (map creationTime msgs))))"
proof (intro conjI impI)
  show "fetchChatMessagesSmart pf s chatId dateFrom dateTo now =
     (if now - dateFrom \<le> 3 * 86400000
      then fetchChatMessagesSimple pf s chatId dateFrom dateTo
      else fetchChatMessagesEnhanced pf s chatId dateFrom dateTo)"
    by (simp add: fetchChatMessagesSmart_def daysDifference_le_3)
next
  assume "fetchChatMessagesSimple pf s chatId dateFrom dateTo = (Inr msgs, r)"
  then show "\<exists>probe endpoint json.
         exchanges r = [probe, (\<lparr>url = endpoint, recordCount = 250, req_pageToken = None\<rparr>, Inr json)]
       \<and> msgs = rev (filter (in_range dateFrom dateTo) (records json))
       \<and> (sorted (rev (map creationTime (records json))) \<longrightarrow>
            sorted (map creationTime msgs))"
    by (cases rule: simple_cases) (auto intro: reverse_ascending)
qed

text \<open>Exactly three days back the single-page fetch is taken, one millisecond more and it is not.\<close>

theorem strategy_selector_witness:
  "fetchChatMessagesSmart sample_feed () ''42'' 2 6 259200002 =
     fetchChatMessagesSimple sample_feed () ''42'' 2 6
 \<and> fetchChatMessagesSmart sample_feed () ''42'' 2 6 259200003 =
     fetchChatMessagesEnhanced sample_feed () ''42'' 2 6
 \<and> fst (fetchChatMessagesSimple sample_feed () ''42'' 2 6) = Inr (map sample_message [3, 5])
 \<and> sorted (rev (map creationTime (map sample_message [9, 5, 3])))
 \<and> sorted (map creationTime (map sample_message [3, 5]))"
proof -
  let ?x = "fetchChatMessagesSimple sample_feed () ''42'' 2 6"
  have run: "?x = (Inr (map sample_message [3, 5]), snd ?x)"
    using sample_simple_run by (metis prod.collapse)
  have page: "exchanges (snd ?x) ! Suc 0 =
      (\<lparr>url = ''/restapi/v1.0/glip/teams/42/posts'', recordCount = 250, req_pageToken = None\<rparr>,
       Inr \<lparr>records = map sample_message [9, 5, 3], nextPageToken = Some ''p2''\<rparr>)"
    by (simp add: simple_eval sample_feed_def)
  have newest_first: "sorted (rev (map creationTime (map sample_message [9, 5, 3])))"
    by (simp add: sample_message_def)
  from strategy_selector [of sample_feed "()" "''42''" 2 6 259200002 "map sample_message [3, 5]"
      "snd ?x", THEN conjunct2, rule_format, OF run]
  obtain probe endpoint json where
    x: "exchanges (snd ?x) =
          [probe, (\<lparr>url = endpoint, recordCount = 250, req_pageToken = None\<rparr>, Inr json)]"
    and o: "sorted (rev (map creationTime (records json))) \<longrightarrow>
            sorted (map creationTime (map sample_message [3, 5]))"
    by blast
  from x page have "records json = map sample_message [9, 5, 3]" by simp
  with o newest_first have "sorted (map creationTime (map sample_message [3, 5]))" by simp
  with strategy_selector [of sample_feed "()" "''42''" 2 6 259200002]
    strategy_selector [of sample_feed "()" "''42''" 2 6 259200003]
    newest_first
  show ?thesis
    by (simp add: sample_simple_run)
qed

subsection \<open>The resilient summarization caller\<close>

text \<open>
  C4, against the specification's words. With a model that is overloaded on three
  consecutive attempts and would answer on the fourth, \<^verbatim>\<open>summarizeConversations\<close> makes
  three calls, waits 2000 ms and 4000 ms, and fails with the overload error: there is no
  fourth call and no wait of 8000 ms.
\<close>

theorem three_overloads_counterexample:
  "transient_overload (busy_then_ready 0) \<and> transient_overload (busy_then_ready 1)
 \<and> transient_overload (busy_then_ready 2)
 \<and> busy_then_ready 3 = Inr ''## Daily Case/Issue Summary''
 \<and> summarizeConversations busy_then_ready =
      (Inl (APIError ''Gemini API is overloaded after multiple retries.'' (Some 503) ''Gemini''),
       \<lparr>attempts = 3, waits = [2000, 4000]\<rparr>)"
  by (simp add: summarizeConversations_def retry_loop.simps busy_then_ready_def
        transient_overload_def)

text \<open>
  C4, as the code has it. If the call reports the overload signal on two consecutive
  attempts and succeeds on the next one, \<^verbatim>\<open>summarizeConversations\<close> makes exactly three
  calls, waits 2000 ms and then 4000 ms between them, and returns the text of the result.
\<close>

theorem two_overloads_then_success:
  assumes "transient_overload (gen 0)" "transient_overload (gen 1)" "gen 2 = Inr result"
  shows "summarizeConversations gen = (Inr (Some result), \<lparr>attempts = 3, waits = [2000, 4000]\<rparr>)"
proof -
  have "summarizeConversations gen = retry_loop gen 2 4000 \<lparr>attempts = 1, waits = [2000]\<rparr>"
    using assms(1) by (simp add: summarizeConversations_def retry_overload_more)
  also have "\<dots> = retry_loop gen (Suc 0) 8000 \<lparr>attempts = 2, waits = [2000, 4000]\<rparr>"
    using assms(2) by (simp add: retry_overload_more numeral_2_eq_2)
  also have "\<dots> = (Inr (Some result), \<lparr>attempts = 3, waits = [2000, 4000]\<rparr>)"
    using assms(3) by (simp add: retry_success numeral_2_eq_2 numeral_3_eq_3)
  finally show ?thesis .
qed

theorem two_overloads_then_success_witness:
  "transient_overload (busy_twice 0) \<and> transient_overload (busy_twice 1)
 \<and> busy_twice 2 = Inr ''## Daily Case/Issue Summary''
 \<and> summarizeConversations busy_twice =
      (Inr (Some ''## Daily Case/Issue Summary''), \<lparr>attempts = 3, waits = [2000, 4000]\<rparr>)"
proof -
  have h: "transient_overload (busy_twice 0)" "transient_overload (busy_twice 1)"
    "busy_twice 2 = Inr ''## Daily Case/Issue Summary''"
    by (simp_all add: busy_twice_def transient_overload_def)
  from two_overloads_then_success [OF h] h show ?thesis by simp
qed

text \<open>
  C5. If the call reports the overload signal on each of the three attempts that the retry
  count of 3 allows, \<^verbatim>\<open>summarizeConversations\<close> makes exactly three calls, with waits of
  2000 ms and 4000 ms, and then fails with the \<^verbatim>\<open>APIError\<close> of status 503; nothing is called
  after the third rejection.
\<close>

theorem overload_exhausts_retries:
  assumes "\<forall>k<3. transient_overload (gen k)"
  shows "summarizeConversations gen =
           (Inl (APIError ''Gemini API is overloaded after multiple retries.'' (Some 503) ''Gemini''),
            \<lparr>attempts = 3, waits = [2000, 4000]\<rparr>)"
proof -
  from assms have o: "transient_overload (gen 0)" "transient_overload (gen (Suc 0))" "transient_overload (gen 2)"
    by simp_all
  have "summarizeConversations gen = retry_loop gen 2 4000 \<lparr>attempts = 1, waits = [2000]\<rparr>"
    using o(1) by (simp add: summarizeConversations_def retry_overload_more)
  also have "\<dots> = retry_loop gen (Suc 0) 8000 \<lparr>attempts = 2, waits = [2000, 4000]\<rparr>"
    using o(2) by (simp add: retry_overload_more numeral_2_eq_2)
  also have "\<dots> = (Inl overload_failure, \<lparr>attempts = 3, waits = [2000, 4000]\<rparr>)"
    using o(3) by (simp add: retry_overload_last numeral_2_eq_2 numeral_3_eq_3)
  finally show ?thesis by (simp add: overload_failure_def)
qed

theorem overload_exhausts_retries_witness:
  "transient_overload (busy_then_ready 0) \<and> transient_overload (busy_then_ready 1)
 \<and> transient_overload (busy_then_ready 2)
 \<and> summarizeConversations busy_then_ready =
      (Inl (APIError ''Gemini API is overloaded after multiple retries.'' (Some 503) ''Gemini''),
       \<lparr>attempts = 3, waits = [2000, 4000]\<rparr>)"
proof -
  have h: "\<forall>k<3. transient_overload (busy_then_ready k)"
    by (simp add: busy_then_ready_def transient_overload_def)
  from overload_exhausts_retries [OF h] h show ?thesis by simp
qed

subsection \<open>Timers and counters\<close>

text \<open>
  C9, on the code. A manager constructed when \<^verbatim>\<open>Date.now()\<close> reads 1700000000000, a timer
  started when \<^verbatim>\<open>performance.now()\<close> reads 100 and ended when it reads 150: the handle
  recorded its start, 100, but the duration reported is the end reading minus the
  manager's \<open>startTime\<close>, not the 50 ms that elapsed.
\<close>

theorem timer_reports_time_since_manager_start:
  "end_timer (startTimer (DiagnosticsManager 1700000000000) ''fetch-page-0'' 100) 150 =
     (''fetch-page-0'', - 1699999999850)
 \<and> timer_startTime (startTimer (DiagnosticsManager 1700000000000) ''fetch-page-0'' 100) = 100
 \<and> snd (end_timer (startTimer (DiagnosticsManager 1700000000000) ''fetch-page-0'' 100) 150)
     \<noteq> 150 - 100"
  by (simp add: startTimer_def DiagnosticsManager_def)

text \<open>
  C10 does not hold for every service name. \<open>toString\<close> is a name the table of a fresh
  manager has no entry for, and after \<^verbatim>\<open>recordApiCall('toString', 12)\<close> it still has none:
  no zeroed entry was initialised.
\<close>

theorem unseen_inherited_name_counterexample:
  "apiCallStats (DiagnosticsManager 1700000000000) ''toString'' = None
 \<and> apiCallStats (recordApiCall ''toString'' 12 False (DiagnosticsManager 1700000000000))
       ''toString'' = None"
  by (simp add: recordApiCall_def DiagnosticsManager_def object_prototype_names_def)

text \<open>
  C10, as the code has it. \<^verbatim>\<open>recordRequest\<close> never lowers \<open>requestCount\<close> or \<open>errorCount\<close>
  and leaves the table alone; \<^verbatim>\<open>recordApiCall\<close> leaves the two counts alone and never lowers
  the \<open>calls\<close> or \<open>errors\<close> of any entry, nor its \<open>totalTime\<close> when the duration is not
  negative. After any sequence of the two calls on a fresh manager,
  \<open>errorCount \<le> requestCount\<close> and every entry has \<open>errors \<le> calls\<close>. For a service name
  without an entry that is not a name inherited from \<^verbatim>\<open>Object.prototype\<close>,
  \<^verbatim>\<open>recordApiCall\<close> starts from a zeroed entry and counts the call on it.
\<close>

theorem metrics_counters_monotone:
  "requestCount this \<le> requestCount (recordRequest error this)
 \<and> errorCount this \<le> errorCount (recordRequest error this)
 \<and> apiCallStats (recordRequest error this) = apiCallStats this
 \<and> requestCount (recordApiCall service duration error this) = requestCount this
 \<and> errorCount (recordApiCall service duration error this) = errorCount this
 \<and> (\<forall>name entry. apiCallStats this name = Some entry \<longrightarrow>
       (\<exists>entry'. apiCallStats (recordApiCall service duration error this) name = Some entry'
          \<and> calls entry \<le> calls entry' \<and> errors entry \<le> errors entry'
          \<and> (0 \<le> duration \<longrightarrow> totalTime entry \<le> totalTime entry')))
 \<and> counters_consistent (fold apply_metrics_call history (DiagnosticsManager date_now))
 \<and> (apiCallStats this service = None \<and> service \<notin> set object_prototype_names \<longrightarrow>
       apiCallStats (recordApiCall service duration error this) service =
         Some \<lparr>calls = 1, errors = (if error then 1 else 0), totalTime = duration\<rparr>)"
proof (intro conjI allI impI)
  fix name entry
  assume "apiCallStats this name = Some entry"
  then show "\<exists>entry'. apiCallStats (recordApiCall service duration error this) name = Some entry'
          \<and> calls entry \<le> calls entry' \<and> errors entry \<le> errors entry'
          \<and> (0 \<le> duration \<longrightarrow> totalTime entry \<le> totalTime entry')"
    by (auto simp: recordApiCall_entry)
next
  show "counters_consistent (fold apply_metrics_call history (DiagnosticsManager date_now))"
    by (rule consistent_fold [OF consistent_initial])
next
  assume "apiCallStats this service = None \<and> service \<notin> set object_prototype_names"
  then show "apiCallStats (recordApiCall service duration error this) service =
         Some \<lparr>calls = 1, errors = (if error then 1 else 0), totalTime = duration\<rparr>"
    by (simp add: recordApiCall_entry)
qed (simp_all add: recordRequest_fields recordApiCall_counts)

text \<open>
  \<open>filesystem\<close>, the one service name the callers pass that the constructor does not
  enter, is not an inherited name and gets its entry.
\<close>

theorem metrics_counters_monotone_witness:
  "apiCallStats (DiagnosticsManager 1700000000000) ''filesystem'' = None
 \<and> ''filesystem'' \<notin> set object_prototype_names
 \<and> apiCallStats (recordApiCall ''filesystem'' 12 True (DiagnosticsManager 1700000000000))
       ''filesystem'' = Some \<lparr>calls = 1, errors = 1, totalTime = 12\<rparr>
 \<and> apiCallStats (DiagnosticsManager 1700000000000) ''gemini'' =
       Some \<lparr>calls = 0, errors = 0, totalTime = 0\<rparr>
 \<and> counters_consistent
       (fold apply_metrics_call
          [RecordRequest False, RecordApiCall ''gemini'' 30 True, RecordRequest True]
          (DiagnosticsManager 1700000000000))"
  using metrics_counters_monotone
    [of "DiagnosticsManager 1700000000000" True "''filesystem''" 12
        "[RecordRequest False, RecordApiCall ''gemini'' 30 True, RecordRequest True]"
        1700000000000]
  by (simp add: DiagnosticsManager_def object_prototype_names_def)

end
